theory Spec2Isabelle
  imports Main "HOL-Library.Sublist" "HOL-Library.Multiset"
begin

section \<open>The script \<^verbatim>\<open>read-orders.py\<close>\<close>

text \<open>
  The script is a single top-level flow:
  \<^verbatim>\<open>
  patterns = [
      'src/app/[locale]/account/orders/[id]/page.tsx',
      'src/app/*/account/orders/*/page.tsx',
  ]

  for pattern in patterns:
      files = glob.glob(pattern)
      for f in files:
          if 'orders' in f and f.endswith('.tsx'):
              print(f"Found: {f}")
              try:
                  with open(f, 'r', encoding='utf-8') as file:
                      content = file.read()
                      print("=" * 80)
                      print(content)
              except Exception as e:
                  print(f"Error reading {f}: {e}")
  \<close>
  It is embedded with explicit state passing. The state holds the filesystem the
  library calls consult and the trace of what the run has done so far: files opened,
  read and closed, and lines printed. Exceptions are values; a call that may raise
  returns a sum whose left injection is the exception. The calls that may raise are
  \<^verbatim>\<open>glob.glob\<close>, \<^verbatim>\<open>open\<close> and \<^verbatim>\<open>file.read\<close>; closing a file that was opened for
  reading and writing a line to standard output are taken to succeed.
\<close>

subsection \<open>Exceptions, output lines, events\<close>

text \<open>
  An exception is one that \<^verbatim>\<open>except Exception\<close> catches; it is represented by the
  text \<^verbatim>\<open>str(e)\<close> gives for it.
\<close>

datatype py_exception = PyException string

fun str :: "py_exception \<Rightarrow> string" where
  "str (PyException msg) = msg"

text \<open>
  The script has four \<^verbatim>\<open>print\<close> statements; a printed line records which one ran and
  with which values. \<open>render_line\<close> is the text the statement hands to \<^verbatim>\<open>print\<close>,
  which writes it followed by a newline. Standard output is an append-only sequence:
  writing to it is taken to succeed.
\<close>

datatype out_line =
    Found string
  | Separator
  | Content string
  | ErrorReading string py_exception

fun render_line :: "out_line \<Rightarrow> string" where
  "render_line (Found f) = ''Found: '' @ f"
| "render_line Separator = replicate 80 (CHR ''='')"
| "render_line (Content content) = content"
| "render_line (ErrorReading f e) = ''Error reading '' @ f @ '': '' @ str e"

definition render :: "out_line list \<Rightarrow> string" where
  "render ls = concat (map (\<lambda>l. render_line l @ [CHR 0x0A]) ls)"

datatype event =
    Opened string
  | ReadAll string
  | Closed string
  | Printed out_line

subsection \<open>The filesystem as the library calls see it\<close>

text \<open>
  A filesystem state answers the three questions the script asks of it:
  what \<^verbatim>\<open>glob.glob(pattern)\<close> returns (a list of paths, in the order the expansion
  yields them, or an exception), whether \<^verbatim>\<open>open(f, 'r', encoding='utf-8')\<close> raises,
  and what \<^verbatim>\<open>file.read()\<close> returns on the opened file (the whole text as decoded, or
  the exception of a failed read or of an invalid UTF-8 sequence).
\<close>

record filesystem =
  expand :: "string \<Rightarrow> py_exception + string list"
  open_failure :: "string \<Rightarrow> py_exception option"
  read_result :: "string \<Rightarrow> py_exception + string"

record sys =
  disk :: filesystem
  trace :: "event list"

definition glob_glob :: "string \<Rightarrow> sys \<Rightarrow> (py_exception + string list) \<times> sys" where
  "glob_glob pattern s = (expand (disk s) pattern, s)"

text \<open>\<^verbatim>\<open>open(f, 'r', encoding='utf-8')\<close>: a handle on \<open>f\<close>, or the exception.\<close>

definition py_open :: "string \<Rightarrow> sys \<Rightarrow> (py_exception + unit) \<times> sys" where
  "py_open f s =
     (case open_failure (disk s) f of
        Some e \<Rightarrow> (Inl e, s)
      | None \<Rightarrow> (Inr (), s\<lparr>trace := trace s @ [Opened f]\<rparr>))"

text \<open>\<^verbatim>\<open>file.read()\<close>: the whole content, decoded, or the exception.\<close>

definition file_read :: "string \<Rightarrow> sys \<Rightarrow> (py_exception + string) \<times> sys" where
  "file_read f s =
     (case read_result (disk s) f of
        Inl e \<Rightarrow> (Inl e, s)
      | Inr content \<Rightarrow> (Inr content, s\<lparr>trace := trace s @ [ReadAll f]\<rparr>))"

definition file_close :: "string \<Rightarrow> sys \<Rightarrow> sys" where
  "file_close f s = s\<lparr>trace := trace s @ [Closed f]\<rparr>"

definition py_print :: "out_line \<Rightarrow> sys \<Rightarrow> sys" where
  "py_print l s = s\<lparr>trace := trace s @ [Printed l]\<rparr>"

subsection \<open>The program\<close>

definition patterns :: "string list" where
  "patterns =
     [''src/app/[locale]/account/orders/[id]/page.tsx'',
      ''src/app/*/account/orders/*/page.tsx'']"

text \<open>The test of line 13: \<^verbatim>\<open>'orders' in f and f.endswith('.tsx')\<close>.\<close>

definition accepted :: "string \<Rightarrow> bool" where
  "accepted f \<longleftrightarrow> sublist ''orders'' f \<and> suffix ''.tsx'' f"

text \<open>Lines 17 to 19, the body of the \<^verbatim>\<open>with\<close> statement.\<close>

definition with_body :: "string \<Rightarrow> sys \<Rightarrow> (py_exception + unit) \<times> sys" where
  "with_body f s =
     (case file_read f s of
        (Inl e, s1) \<Rightarrow> (Inl e, s1)
      | (Inr content, s1) \<Rightarrow>
          (Inr (), py_print (Content content) (py_print Separator s1)))"

text \<open>
  Line 16, the \<^verbatim>\<open>with\<close> statement: when \<^verbatim>\<open>open\<close> raises there is no handle and the
  exception leaves the statement; otherwise the body runs and the file is closed when
  the body is left, by its end or by an exception.
\<close>

definition with_open :: "string \<Rightarrow> sys \<Rightarrow> (py_exception + unit) \<times> sys" where
  "with_open f s =
     (case py_open f s of
        (Inl e, s1) \<Rightarrow> (Inl e, s1)
      | (Inr _, s1) \<Rightarrow>
          (case with_body f s1 of (r, s2) \<Rightarrow> (r, file_close f s2)))"

text \<open>Lines 14 to 21: the \<open>Found\<close> line, then the \<^verbatim>\<open>try\<close> statement.\<close>

definition report :: "string \<Rightarrow> sys \<Rightarrow> sys" where
  "report f s =
     (case with_open f (py_print (Found f) s) of
        (Inr _, s1) \<Rightarrow> s1
      | (Inl e, s1) \<Rightarrow> py_print (ErrorReading f e) s1)"

text \<open>Lines 12 to 21: the loop over the matches of one pattern.\<close>

fun for_files :: "string list \<Rightarrow> sys \<Rightarrow> sys" where
  "for_files [] s = s"
| "for_files (f # files) s = for_files files (if accepted f then report f s else s)"

text \<open>
  Lines 10 to 21: the loop over the patterns. An exception of \<^verbatim>\<open>glob.glob\<close> is outside
  every \<^verbatim>\<open>try\<close>: it ends the run.
\<close>

fun for_patterns :: "string list \<Rightarrow> sys \<Rightarrow> py_exception option \<times> sys" where
  "for_patterns [] s = (None, s)"
| "for_patterns (pattern # ps) s =
     (case glob_glob pattern s of
        (Inl e, s1) \<Rightarrow> (Some e, s1)
      | (Inr files, s1) \<Rightarrow> for_patterns ps (for_files files s1))"

text \<open>A run starts with an empty trace on the filesystem as it is found.\<close>

definition main :: "filesystem \<Rightarrow> py_exception option \<times> sys" where
  "main fsys = for_patterns patterns \<lparr>disk = fsys, trace = []\<rparr>"

text \<open>
  The exit status of the interpreter: 0 when the script runs to its end, 1 when an
  exception is not caught.
\<close>

fun exit_code :: "py_exception option \<Rightarrow> nat" where
  "exit_code None = 0"
| "exit_code (Some e) = 1"

subsection \<open>What a run is observed by\<close>

fun printed :: "event list \<Rightarrow> out_line list" where
  "printed [] = []"
| "printed (Printed l # es) = l # printed es"
| "printed (e # es) = printed es"

definition stdout :: "py_exception option \<times> sys \<Rightarrow> string" where
  "stdout r = render (printed (trace (snd r)))"

fun found_paths :: "out_line list \<Rightarrow> string list" where
  "found_paths [] = []"
| "found_paths (Found f # ls) = f # found_paths ls"
| "found_paths (l # ls) = found_paths ls"

text \<open>What processing the candidates \<open>fs\<close> alone, from an empty trace, does and prints.\<close>

definition events_of :: "filesystem \<Rightarrow> string list \<Rightarrow> event list" where
  "events_of fsys fs = trace (for_files fs \<lparr>disk = fsys, trace = []\<rparr>)"

definition text_of :: "filesystem \<Rightarrow> string list \<Rightarrow> string" where
  "text_of fsys fs = render (printed (events_of fsys fs))"

text \<open>What handling the one accepted candidate \<open>f\<close>, from an empty trace, does.\<close>

definition file_events :: "filesystem \<Rightarrow> string \<Rightarrow> event list" where
  "file_events fsys f = trace (report f \<lparr>disk = fsys, trace = []\<rparr>)"



text \<open>The exception of the first pattern whose expansion raises, if any.\<close>

fun glob_failure :: "filesystem \<Rightarrow> string list \<Rightarrow> py_exception option" where
  "glob_failure fsys [] = None"
| "glob_failure fsys (pattern # ps) =
     (case expand fsys pattern of Inl e \<Rightarrow> Some e | Inr files \<Rightarrow> glob_failure fsys ps)"

section \<open>The library: \<^verbatim>\<open>glob.glob\<close> on a directory tree\<close>

text \<open>
  What the two patterns can match is decided by Python's \<^verbatim>\<open>glob\<close>, \<^verbatim>\<open>fnmatch\<close> and
  \<^verbatim>\<open>posixpath\<close> modules (CPython 3.11, on a POSIX system). They are embedded here over
  a directory tree that stands for the current working directory: a node is a file or
  a directory with its entries in the order \<^verbatim>\<open>os.scandir\<close> lists them. A path is
  resolved component by component; the model has no \<^verbatim>\<open>.\<close>, \<^verbatim>\<open>..\<close> or empty component
  and no absolute path, none of which the script's patterns contain, and no symbolic
  link.
\<close>

datatype node = File | Dir "(string \<times> node) list"

fun split_sep :: "string \<Rightarrow> string list" where
  "split_sep [] = [[]]"
| "split_sep (c # cs) =
     (if c = CHR ''/'' then [] # split_sep cs
      else (case split_sep cs of w # ws \<Rightarrow> (c # w) # ws | [] \<Rightarrow> [[c]]))"

fun walk :: "node \<Rightarrow> string list \<Rightarrow> node option" where
  "walk n [] = Some n"
| "walk File (c # cs) = None"
| "walk (Dir entries) (c # cs) =
     (case map_of entries c of None \<Rightarrow> None | Some n \<Rightarrow> walk n cs)"

definition lookup :: "node \<Rightarrow> string \<Rightarrow> node option" where
  "lookup t path = walk t (split_sep path)"

text \<open>\<^verbatim>\<open>os.path.lexists\<close>, \<^verbatim>\<open>os.path.isdir\<close>, and \<^verbatim>\<open>DirEntry.is_dir\<close>.\<close>

definition lexists :: "node \<Rightarrow> string \<Rightarrow> bool" where
  "lexists t path = (lookup t path \<noteq> None)"

fun is_dir :: "node \<Rightarrow> bool" where
  "is_dir (Dir entries) = True"
| "is_dir File = False"

definition isdir :: "node \<Rightarrow> string \<Rightarrow> bool" where
  "isdir t path = (case lookup t path of Some n \<Rightarrow> is_dir n | None \<Rightarrow> False)"

text \<open>
  \<^verbatim>\<open>_listdir(dirname, dir_fd, dironly)\<close>: the names in a directory, only those of
  directories when \<open>dironly\<close>; the empty \<open>dirname\<close> is the current directory; nothing
  when the directory cannot be listed.
\<close>

definition listdir :: "node \<Rightarrow> string \<Rightarrow> bool \<Rightarrow> string list" where
  "listdir t dirname dironly =
     (case (if dirname = [] then Some t else lookup t dirname) of
        Some (Dir entries) \<Rightarrow>
          map fst (filter (\<lambda>(name, n). \<not> dironly \<or> is_dir n) entries)
      | _ \<Rightarrow> [])"

text \<open>
  \<^verbatim>\<open>posixpath.split\<close>: the tail is what follows the last slash; the head is what
  precedes it, without its trailing slashes unless it consists of slashes only.
\<close>

definition posix_split :: "string \<Rightarrow> string \<times> string" where
  "posix_split p =
     (let tail = rev (takeWhile (\<lambda>c. c \<noteq> CHR ''/'') (rev p));
          head = rev (dropWhile (\<lambda>c. c \<noteq> CHR ''/'') (rev p))
      in (if head \<noteq> [] \<and> head \<noteq> replicate (length head) (CHR ''/'')
          then rev (dropWhile (\<lambda>c. c = CHR ''/'') (rev head)) else head,
          tail))"

text \<open>\<^verbatim>\<open>posixpath.join\<close> of two parts, and \<^verbatim>\<open>glob._join\<close>.\<close>

definition posix_join :: "string \<Rightarrow> string \<Rightarrow> string" where
  "posix_join a b =
     (if prefix ''/'' b then b
      else if a = [] \<or> suffix ''/'' a then a @ b
      else a @ ''/'' @ b)"

definition glob_join :: "string \<Rightarrow> string \<Rightarrow> string" where
  "glob_join dirname basename =
     (if dirname = [] \<or> basename = [] then (if dirname \<noteq> [] then dirname else basename)
      else posix_join dirname basename)"

definition has_magic :: "string \<Rightarrow> bool" where
  "has_magic s = list_ex (\<lambda>c. c = CHR ''*'' \<or> c = CHR ''?'' \<or> c = CHR ''['') s"

fun ishidden :: "string \<Rightarrow> bool" where
  "ishidden [] = False"
| "ishidden (c # cs) = (c = CHR ''.'')"

subsection \<open>\<^verbatim>\<open>fnmatch\<close>\<close>

text \<open>
  \<^verbatim>\<open>fnmatch.translate\<close> turns a pattern into a regular expression that must match the
  whole name. Its pieces are kept here as tokens: a star, a literal character, and a
  character set, negated or not, given by its single characters and its ranges. The
  question mark is the negated empty set. The regular expression commits to the
  leftmost match of what follows a star, which finds a match whenever there is one.
\<close>

datatype tok = Star | Lit char | CharSet bool "char list" "(char \<times> char) list"

text \<open>
  After an opening bracket: the text up to the closing bracket, where a leading
  \<^verbatim>\<open>!\<close> and a \<^verbatim>\<open>]\<close> right after it do not close, and the rest of the pattern;
  \<open>None\<close> when the bracket is never closed.
\<close>

definition bracket :: "string \<Rightarrow> (string \<times> string) option" where
  "bracket s =
     (let (a, s1) = (case s of c # r \<Rightarrow> if c = CHR ''!'' then ([c], r) else ([], s)
                     | [] \<Rightarrow> ([], s));
          (b, s2) = (case s1 of c # r \<Rightarrow> if c = CHR '']'' then ([c], r) else ([], s1)
                     | [] \<Rightarrow> ([], s1));
          c = takeWhile (\<lambda>x. x \<noteq> CHR '']'') s2;
          s3 = dropWhile (\<lambda>x. x \<noteq> CHR '']'') s2
      in (case s3 of [] \<Rightarrow> None | _ # rest \<Rightarrow> Some (a @ b @ c, rest)))"

text \<open>\<^verbatim>\<open>pat.find('-', k, j)\<close> within the bracket's text.\<close>

fun find_from :: "nat \<Rightarrow> string \<Rightarrow> nat option" where
  "find_from k [] = None"
| "find_from 0 (c # cs) =
     (if c = CHR ''-'' then Some 0 else map_option Suc (find_from 0 cs))"
| "find_from (Suc k) (c # cs) = map_option Suc (find_from k cs)"

lemma find_from_less: "find_from k s = Some p \<Longrightarrow> p < length s"
  by (induction k s arbitrary: p rule: find_from.induct) (auto split: if_splits)

text \<open>
  The chunks between the hyphens that make ranges: a hyphen makes a range only from
  the second character on (the third after \<^verbatim>\<open>!\<close>), and the next one only two
  characters after the previous.
\<close>

function chunks_from :: "nat \<Rightarrow> string \<Rightarrow> string list" where
  "chunks_from k s =
     (case find_from k s of
        None \<Rightarrow> [s]
      | Some p \<Rightarrow> take p s # chunks_from 2 (drop (Suc p) s))"
  by pat_completeness auto
termination
  by (relation "measure (\<lambda>(k, s). length s)") (auto dest: find_from_less)

definition chunks :: "string \<Rightarrow> string list" where
  "chunks stuff =
     (let cs = chunks_from (if prefix ''!'' stuff then 2 else 1) stuff
      in if last cs = [] then butlast (butlast cs) @ [last (butlast cs) @ ''-''] else cs)"

text \<open>A range whose start is above its end is removed, from the right.\<close>

fun drop_empty_ranges :: "string list \<Rightarrow> string list" where
  "drop_empty_ranges (a # b # rest) =
     (case drop_empty_ranges (b # rest) of
        b' # rest' \<Rightarrow>
          if (of_char (last a) :: nat) > of_char (hd b') then (butlast a @ tl b') # rest'
          else a # b' # rest'
      | [] \<Rightarrow> [a])"
| "drop_empty_ranges cs = cs"

fun singles :: "bool \<Rightarrow> string list \<Rightarrow> string" where
  "singles first [] = []"
| "singles first [c] = (if first then c else tl c)"
| "singles first (c # cs) = (if first then butlast c else butlast (tl c)) @ singles False cs"

fun ranges :: "string list \<Rightarrow> (char \<times> char) list" where
  "ranges (a # b # rest) = (last a, hd b) # ranges (b # rest)"
| "ranges cs = []"

definition char_set :: "string \<Rightarrow> tok" where
  "char_set stuff =
     (let cs = (if CHR ''-'' \<in> set stuff then drop_empty_ranges (chunks stuff) else [stuff]);
          neg = (case cs of c # _ \<Rightarrow> prefix ''!'' c | [] \<Rightarrow> False);
          cs' = (case cs of c # r \<Rightarrow> (if neg then tl c else c) # r | [] \<Rightarrow> [])
      in CharSet neg (singles True cs') (ranges cs'))"

lemma bracket_shorter: "bracket s = Some (stuff, rest) \<Longrightarrow> length rest < Suc (length s)"
proof -
  assume b: "bracket s = Some (stuff, rest)"
  define s1 where "s1 = (case s of c # r \<Rightarrow> if c = CHR ''!'' then r else s | [] \<Rightarrow> s)"
  define s2 where "s2 = (case s1 of c # r \<Rightarrow> if c = CHR '']'' then r else s1 | [] \<Rightarrow> s1)"
  have l1: "length s1 \<le> length s" by (simp add: s1_def split: list.splits)
  have l2: "length s2 \<le> length s1" by (simp add: s2_def split: list.splits)
  from b obtain x where "dropWhile (\<lambda>x. x \<noteq> CHR '']'') s2 = x # rest"
    by (auto simp: bracket_def s1_def s2_def Let_def split: list.splits if_splits)
  then have "length rest < length (dropWhile (\<lambda>x. x \<noteq> CHR '']'') s2)" by simp
  also have "\<dots> \<le> length s2" by (rule length_dropWhile_le)
  finally show ?thesis using l1 l2 by simp
qed

function translate :: "string \<Rightarrow> tok list" where
  "translate [] = []"
| "translate (c # pat) =
     (if c = CHR ''*'' then Star # translate (dropWhile (\<lambda>x. x = CHR ''*'') pat)
      else if c = CHR ''?'' then CharSet True [] [] # translate pat
      else if c = CHR ''['' then
        (case bracket pat of
           None \<Rightarrow> Lit c # translate pat
         | Some (stuff, rest) \<Rightarrow> char_set stuff # translate rest)
      else Lit c # translate pat)"
  by pat_completeness auto
termination
  apply (relation "measure length")
  apply (auto dest: bracket_shorter)
  apply (metis le_imp_less_Suc length_dropWhile_le)
  done

fun tok_match :: "tok \<Rightarrow> char \<Rightarrow> bool" where
  "tok_match Star c = True"
| "tok_match (Lit a) c = (c = a)"
| "tok_match (CharSet neg ss rs) c =
     ((c \<in> set ss \<or>
       list_ex (\<lambda>(a, b). (of_char a :: nat) \<le> of_char c \<and> (of_char c :: nat) \<le> of_char b) rs)
      \<noteq> neg)"

fun matches :: "tok list \<Rightarrow> string \<Rightarrow> bool" where
  "matches [] s = (s = [])"
| "matches (Star # ts) s =
     (matches ts s \<or> (case s of [] \<Rightarrow> False | _ # s' \<Rightarrow> matches (Star # ts) s'))"
| "matches (t # ts) [] = False"
| "matches (t # ts) (c # s) = (tok_match t c \<and> matches ts s)"

text \<open>\<^verbatim>\<open>fnmatch.filter(names, pat)\<close>.\<close>

definition fnmatch_filter :: "string list \<Rightarrow> string \<Rightarrow> string list" where
  "fnmatch_filter names pat = filter (matches (translate pat)) names"

subsection \<open>\<^verbatim>\<open>glob\<close>\<close>

text \<open>
  \<^verbatim>\<open>_glob1\<close> lists a directory and filters the names by a pattern, without the hidden
  names unless the pattern is hidden itself; \<^verbatim>\<open>_glob0\<close> checks that a literal name
  exists. \<^verbatim>\<open>glob.glob\<close> is called with its defaults: no \<open>root_dir\<close>, not recursive,
  hidden names not included.
\<close>

definition glob1 :: "node \<Rightarrow> string \<Rightarrow> string \<Rightarrow> bool \<Rightarrow> string list" where
  "glob1 t dirname pattern dironly =
     (let names = listdir t dirname dironly;
          names = (if \<not> ishidden pattern then filter (\<lambda>x. \<not> ishidden x) names else names)
      in fnmatch_filter names pattern)"

definition glob0 :: "node \<Rightarrow> string \<Rightarrow> string \<Rightarrow> bool \<Rightarrow> string list" where
  "glob0 t dirname basename dironly =
     (if basename \<noteq> [] then (if lexists t (glob_join dirname basename) then [basename] else [])
      else (if isdir t dirname then [basename] else []))"

lemma prefix_rev_dropWhile: "prefix (rev (dropWhile P (rev xs))) xs"
proof -
  have "rev xs = takeWhile P (rev xs) @ dropWhile P (rev xs)" by simp
  then have "xs = rev (dropWhile P (rev xs)) @ rev (takeWhile P (rev xs))"
    by (metis rev_append rev_rev_ident)
  then show ?thesis by (metis prefixI)
qed

lemma prefix_split: "prefix (fst (posix_split p)) p"
proof -
  define head where "head = rev (dropWhile (\<lambda>c. c \<noteq> CHR ''/'') (rev p))"
  have h: "prefix head p"
    unfolding head_def by (rule prefix_rev_dropWhile)
  have "prefix (rev (dropWhile (\<lambda>c. c = CHR ''/'') (rev head))) head"
    by (rule prefix_rev_dropWhile)
  with h have s: "prefix (rev (dropWhile (\<lambda>c. c = CHR ''/'') (rev head))) p"
    by (rule prefix_order.trans [rotated])
  have "fst (posix_split p) =
      (if head \<noteq> [] \<and> head \<noteq> replicate (length head) (CHR ''/'')
       then rev (dropWhile (\<lambda>c. c = CHR ''/'') (rev head)) else head)"
    unfolding posix_split_def head_def Let_def by (rule fst_conv)
  with h s show ?thesis by presburger
qed

lemma split_shorter:
  "fst (posix_split p) \<noteq> p \<Longrightarrow> length (fst (posix_split p)) < length p"
  using prefix_split [of p]
  by (metis prefix_length_le le_neq_implies_less prefix_length_prefix
      prefix_order.eq_iff prefix_order.refl)

text \<open>\<^verbatim>\<open>_iglob(pathname, root_dir, dir_fd, recursive, dironly)\<close>, its results as a list.\<close>

function iglob :: "node \<Rightarrow> string \<Rightarrow> bool \<Rightarrow> string list" where
  "iglob t pathname dironly =
     (let dirname = fst (posix_split pathname); basename = snd (posix_split pathname) in
      if \<not> has_magic pathname then
        (if basename \<noteq> [] then (if lexists t pathname then [pathname] else [])
         else (if isdir t dirname then [pathname] else []))
      else if dirname = [] then glob1 t [] basename dironly
      else
        let dirs = (if dirname \<noteq> pathname \<and> has_magic dirname then iglob t dirname True
                    else [dirname]);
            glob_in_dir = (if has_magic basename then glob1 else glob0)
        in concat (map (\<lambda>dirname.
                     map (\<lambda>name. posix_join dirname name)
                         (glob_in_dir t dirname basename dironly)) dirs))"
  by pat_completeness auto
termination
  by (relation "measure (\<lambda>(t, p, d). length p)") (auto dest: split_shorter)

definition py_glob :: "node \<Rightarrow> string \<Rightarrow> string list" where
  "py_glob t pathname = iglob t pathname False"

text \<open>
  A name in a directory is not empty, has no slash and is neither \<^verbatim>\<open>.\<close> nor \<^verbatim>\<open>..\<close>,
  and no two entries of a directory share a name.
\<close>

definition valid_name :: "string \<Rightarrow> bool" where
  "valid_name name \<longleftrightarrow>
     name \<noteq> [] \<and> \<not> list_ex (\<lambda>c. c = CHR ''/'') name \<and> name \<noteq> ''.'' \<and> name \<noteq> ''..''"

fun wf_node :: "node \<Rightarrow> bool" where
  "wf_node File = True"
| "wf_node (Dir entries) =
     (distinct (map fst entries) \<and>
      list_all (\<lambda>e. valid_name (fst e) \<and> wf_node (snd e)) entries)"

text \<open>
  The filesystem a tree gives: its expansions never raise (\<^verbatim>\<open>glob\<close> ignores the
  directories it cannot list); what opening and reading a path give is left to
  \<open>op\<close> and \<open>rd\<close>.
\<close>

definition tree_filesystem ::
  "node \<Rightarrow> (string \<Rightarrow> py_exception option) \<Rightarrow> (string \<Rightarrow> py_exception + string) \<Rightarrow> filesystem"
where
  "tree_filesystem t op rd =
     \<lparr>expand = (\<lambda>pattern. Inr (py_glob t pattern)), open_failure = op, read_result = rd\<rparr>"

subsection \<open>Three filesystems to run the script on\<close>

text \<open>
  A project tree with three order pages: under a directory \<^verbatim>\<open>l\<close>, which both patterns
  match, under \<^verbatim>\<open>en\<close>, and under directories literally named \<^verbatim>\<open>[locale]\<close> and
  \<^verbatim>\<open>[id]\<close>. The first page is not valid UTF-8, the second holds the text \<^verbatim>\<open>X\<close>, the
  third may not be opened.
\<close>

definition example_tree :: node where
  "example_tree =
     Dir [(''src'', Dir [(''app'', Dir
       [(''l'', Dir [(''account'', Dir [(''orders'', Dir [(''i'', Dir [(''page.tsx'', File)])])])]),
        (''en'', Dir [(''account'', Dir [(''orders'', Dir [(''42'', Dir [(''page.tsx'', File)])])])]),
        (''[locale]'',
           Dir [(''account'', Dir [(''orders'', Dir [(''[id]'', Dir [(''page.tsx'', File)])])])])])])]"

definition example_open :: "string \<Rightarrow> py_exception option" where
  "example_open f =
     (if f = ''src/app/[locale]/account/orders/[id]/page.tsx''
      then Some (PyException ''[Errno 13] Permission denied'') else None)"

definition example_read :: "string \<Rightarrow> py_exception + string" where
  "example_read f =
     (if f = ''src/app/en/account/orders/42/page.tsx'' then Inr ''X''
      else if f = ''src/app/l/account/orders/i/page.tsx''
      then Inl (PyException ''invalid start byte'') else Inr [])"

definition example_fs :: filesystem where
  "example_fs = tree_filesystem example_tree example_open example_read"




section \<open>The run\<close>


lemma file_events_open_fails:
  "open_failure fsys f = Some e \<Longrightarrow>
   file_events fsys f = [Printed (Found f), Printed (ErrorReading f e)]"
  by (simp add: file_events_def report_def with_open_def py_open_def py_print_def)

lemma file_events_read_fails:
  "open_failure fsys f = None \<Longrightarrow> read_result fsys f = Inl e \<Longrightarrow>
   file_events fsys f = [Printed (Found f), Opened f, Closed f, Printed (ErrorReading f e)]"
  by (simp add: file_events_def report_def with_open_def with_body_def py_open_def
      file_read_def file_close_def py_print_def)

lemma file_events_read:
  "open_failure fsys f = None \<Longrightarrow> read_result fsys f = Inr content \<Longrightarrow>
   file_events fsys f =
     [Printed (Found f), Opened f, ReadAll f, Printed Separator, Printed (Content content),
      Closed f]"
  by (simp add: file_events_def report_def with_open_def with_body_def py_open_def
      file_read_def file_close_def py_print_def)

lemma report_state: "report f s = s\<lparr>trace := trace s @ file_events (disk s) f\<rparr>"
  by (cases "open_failure (disk s) f"; cases "read_result (disk s) f")
     (simp_all add: file_events_def report_def with_open_def with_body_def py_open_def
      file_read_def file_close_def py_print_def)

lemma for_files_state:
  "for_files fs s =
   s\<lparr>trace := trace s @ concat (map (file_events (disk s)) (filter accepted fs))\<rparr>"
proof (induction fs arbitrary: s)
  case Nil
  show ?case by simp
next
  case (Cons f fs)
  show ?case by (simp add: Cons.IH report_state)
qed

lemma events_of_eq:
  "events_of fsys fs = concat (map (file_events fsys) (filter accepted fs))"
  by (simp add: events_of_def for_files_state)

lemma for_files_events: "for_files fs s = s\<lparr>trace := trace s @ events_of (disk s) fs\<rparr>"
  by (simp add: for_files_state events_of_eq)

lemma events_of_append: "events_of fsys (fs @ gs) = events_of fsys fs @ events_of fsys gs"
  by (simp add: events_of_eq)

lemma for_patterns_exit: "fst (for_patterns ps s) = glob_failure (disk s) ps"
  by (induction ps arbitrary: s)
     (auto simp: glob_glob_def for_files_events split: sum.splits)

lemma for_patterns_disk: "disk (snd (for_patterns ps s)) = disk s"
  by (induction ps arbitrary: s)
     (auto simp: glob_glob_def for_files_events split: sum.splits)

lemma for_patterns_trace:
  "\<forall>pattern\<in>set ps. expand (disk s) pattern = Inr (m pattern) \<Longrightarrow>
   trace (snd (for_patterns ps s)) =
     trace s @ concat (map (\<lambda>pattern. events_of (disk s) (m pattern)) ps)"
  by (induction ps arbitrary: s) (auto simp: glob_glob_def for_files_events)

lemma printed_append: "printed (es @ fs) = printed es @ printed fs"
  by (induction es rule: printed.induct) simp_all

lemma printed_concat: "printed (concat ess) = concat (map printed ess)"
  by (induction ess) (simp_all add: printed_append)

lemma found_paths_append: "found_paths (ks @ ls) = found_paths ks @ found_paths ls"
  by (induction ks rule: found_paths.induct) simp_all

lemma found_paths_concat: "found_paths (concat lss) = concat (map found_paths lss)"
  by (induction lss) (simp_all add: found_paths_append)

lemma render_append: "render (ks @ ls) = render ks @ render ls"
  by (simp add: render_def)

lemma found_file_events: "found_paths (printed (file_events fsys f)) = [f]"
  by (cases "open_failure fsys f"; cases "read_result fsys f")
     (simp_all add: file_events_open_fails file_events_read_fails file_events_read)

lemma found_events_of: "found_paths (printed (events_of fsys fs)) = filter accepted fs"
  by (induction fs)
     (simp_all add: events_of_eq printed_append found_paths_append found_file_events)

lemma main_trace:
  "\<forall>pattern\<in>set patterns. expand fsys pattern = Inr (m pattern) \<Longrightarrow>
   trace (snd (main fsys)) = concat (map (\<lambda>pattern. events_of fsys (m pattern)) patterns)"
  using for_patterns_trace [of patterns "\<lparr>disk = fsys, trace = []\<rparr>" m]
  by (simp add: main_def)

subsection \<open>The example filesystems, expanded\<close>

lemma example_glob_0:
  "py_glob example_tree ''src/app/[locale]/account/orders/[id]/page.tsx'' =
     [''src/app/l/account/orders/i/page.tsx'']"
  by code_simp

lemma example_glob_1:
  "py_glob example_tree ''src/app/*/account/orders/*/page.tsx'' =
     [''src/app/l/account/orders/i/page.tsx'',
      ''src/app/en/account/orders/42/page.tsx'',
      ''src/app/[locale]/account/orders/[id]/page.tsx'']"
  by code_simp

lemma example_expand:
  "\<forall>pattern\<in>set patterns. expand example_fs pattern = Inr (py_glob example_tree pattern)"
  by (simp add: example_fs_def tree_filesystem_def)

lemma example_candidates:
  "concat (map (py_glob example_tree) patterns) =
     [''src/app/l/account/orders/i/page.tsx'',
      ''src/app/l/account/orders/i/page.tsx'',
      ''src/app/en/account/orders/42/page.tsx'',
      ''src/app/[locale]/account/orders/[id]/page.tsx'']"
  by (simp add: patterns_def example_glob_0 example_glob_1)



lemma empty_expand:
  "\<forall>pattern\<in>set patterns.
     expand (tree_filesystem (Dir []) (\<lambda>f. None) (\<lambda>f. Inr [])) pattern =
       Inr (py_glob (Dir []) pattern)"
  by (simp add: tree_filesystem_def)

subsection \<open>The claims about the run\<close>

text \<open>
  Claim C1. When the two patterns expand, the paths of the \<open>Found\<close> lines are, pattern
  by pattern in the declared order, the paths of each expansion that contain
  \<^verbatim>\<open>orders\<close> and end in \<^verbatim>\<open>.tsx\<close>, in the order and as often as the expansions give
  them: as lists, and therefore as multisets. A path matched by both patterns is
  printed twice.
\<close>
theorem found_lines_are_the_accepted_matches:
  assumes "\<forall>pattern\<in>set patterns. expand fsys pattern = Inr (m pattern)"
  shows "found_paths (printed (trace (snd (main fsys)))) =
           concat (map (\<lambda>pattern. filter accepted (m pattern)) patterns) \<and>
         mset (found_paths (printed (trace (snd (main fsys))))) =
           (\<Sum>pattern\<leftarrow>patterns. mset (filter accepted (m pattern)))"
proof -
  have "found_paths (printed (concat (map (\<lambda>pattern. events_of fsys (m pattern)) ps))) =
        concat (map (\<lambda>pattern. filter accepted (m pattern)) ps)" for ps
    by (induction ps) (simp_all add: printed_append found_paths_append found_events_of)
  then have l: "found_paths (printed (trace (snd (main fsys)))) =
      concat (map (\<lambda>pattern. filter accepted (m pattern)) patterns)"
    by (simp add: main_trace [OF assms])
  have "mset (concat (map (\<lambda>pattern. filter accepted (m pattern)) ps)) =
        (\<Sum>pattern\<leftarrow>ps. mset (filter accepted (m pattern)))" for ps
    by (induction ps) simp_all
  with l show ?thesis by simp
qed

theorem found_lines_witness:
  "found_paths (printed (trace (snd (main example_fs)))) =
     [''src/app/l/account/orders/i/page.tsx'',
      ''src/app/l/account/orders/i/page.tsx'',
      ''src/app/en/account/orders/42/page.tsx'',
      ''src/app/[locale]/account/orders/[id]/page.tsx''] \<and>
   mset (found_paths (printed (trace (snd (main example_fs))))) =
     {#''src/app/l/account/orders/i/page.tsx'',
       ''src/app/l/account/orders/i/page.tsx'',
       ''src/app/en/account/orders/42/page.tsx'',
       ''src/app/[locale]/account/orders/[id]/page.tsx''#}"
proof -
  note c1 = found_lines_are_the_accepted_matches [OF example_expand]
  have "concat (map (\<lambda>pattern. filter accepted (py_glob example_tree pattern)) patterns) =
     [''src/app/l/account/orders/i/page.tsx'',
      ''src/app/l/account/orders/i/page.tsx'',
      ''src/app/en/account/orders/42/page.tsx'',
      ''src/app/[locale]/account/orders/[id]/page.tsx'']"
    by code_simp
  with c1 have "found_paths (printed (trace (snd (main example_fs)))) =
     [''src/app/l/account/orders/i/page.tsx'',
      ''src/app/l/account/orders/i/page.tsx'',
      ''src/app/en/account/orders/42/page.tsx'',
      ''src/app/[locale]/account/orders/[id]/page.tsx'']"
    by simp
  then show ?thesis by simp
qed


lemma main_events:
  assumes "\<forall>pattern\<in>set patterns. expand fsys pattern = Inr (m pattern)"
  shows "trace (snd (main fsys)) = events_of fsys (concat (map m patterns))"
proof -
  have "concat (map (\<lambda>pattern. events_of fsys (m pattern)) ps) =
        events_of fsys (concat (map m ps))" for ps
    by (induction ps) (simp_all add: events_of_append, simp add: events_of_eq)
  then show ?thesis by (simp add: main_trace [OF assms])
qed

lemma main_exit: "fst (main fsys) = glob_failure fsys patterns"
  by (simp add: main_def for_patterns_exit)

lemma glob_failure_none:
  "\<forall>pattern\<in>set ps. expand fsys pattern = Inr (m pattern) \<Longrightarrow> glob_failure fsys ps = None"
  by (induction ps) simp_all

lemma text_of_split:
  "text_of fsys (before @ f # after) =
   text_of fsys before @
   (if accepted f then render (printed (file_events fsys f)) else []) @
   text_of fsys after"
  by (simp add: text_of_def events_of_eq printed_append render_append)



text \<open>
  Claim C3. For an accepted candidate whose opening, reading or decoding raises, the
  run prints the \<open>Found\<close> line and right after it the line
  \<^verbatim>\<open>Error reading <path>: <message>\<close>, with no separator and no content; the candidates
  that follow are processed as they would be on their own, and the run ends normally.
\<close>
theorem read_failure_is_reported_and_run_continues:
  assumes "\<forall>pattern\<in>set patterns. expand fsys pattern = Inr (m pattern)"
    and "concat (map m patterns) = before @ f # after"
    and "accepted f"
    and "open_failure fsys f = Some e \<or>
         (open_failure fsys f = None \<and> read_result fsys f = Inl e)"
  shows "stdout (main fsys) =
           text_of fsys before @
           (''Found: '' @ f @ [CHR 0x0A] @
            ''Error reading '' @ f @ '': '' @ str e @ [CHR 0x0A]) @
           text_of fsys after \<and>
         fst (main fsys) = None"
proof -
  have "stdout (main fsys) = text_of fsys (before @ f # after)"
    by (simp add: stdout_def text_of_def main_events [OF assms(1)] assms(2))
  moreover have "render (printed (file_events fsys f)) =
      ''Found: '' @ f @ [CHR 0x0A] @ ''Error reading '' @ f @ '': '' @ str e @ [CHR 0x0A]"
    using assms(4)
    by (auto simp: file_events_open_fails file_events_read_fails render_def)
  ultimately have "stdout (main fsys) =
           text_of fsys before @
           (''Found: '' @ f @ [CHR 0x0A] @
            ''Error reading '' @ f @ '': '' @ str e @ [CHR 0x0A]) @
           text_of fsys after"
    using assms(3) by (simp only: text_of_split if_True)
  moreover have "fst (main fsys) = None"
    by (simp only: main_exit glob_failure_none [OF assms(1)])
  ultimately show ?thesis by (rule conjI)
qed

theorem read_failure_witness:
  "stdout (main example_fs) =
     (''Found: src/app/l/account/orders/i/page.tsx'' @ [CHR 0x0A] @
      ''Error reading src/app/l/account/orders/i/page.tsx: invalid start byte'' @ [CHR 0x0A]) @
     text_of example_fs
       [''src/app/l/account/orders/i/page.tsx'',
        ''src/app/en/account/orders/42/page.tsx'',
        ''src/app/[locale]/account/orders/[id]/page.tsx''] \<and>
   fst (main example_fs) = None"
proof -
  have a: "accepted ''src/app/l/account/orders/i/page.tsx''"
    by code_simp
  have c: "concat (map (py_glob example_tree) patterns) =
      [] @ ''src/app/l/account/orders/i/page.tsx'' #
      [''src/app/l/account/orders/i/page.tsx'',
       ''src/app/en/account/orders/42/page.tsx'',
       ''src/app/[locale]/account/orders/[id]/page.tsx'']"
    by (simp add: example_candidates)
  have f: "open_failure example_fs ''src/app/l/account/orders/i/page.tsx'' =
             Some (PyException ''invalid start byte'') \<or>
           (open_failure example_fs ''src/app/l/account/orders/i/page.tsx'' = None \<and>
            read_result example_fs ''src/app/l/account/orders/i/page.tsx'' =
              Inl (PyException ''invalid start byte''))"
    by (simp add: example_fs_def tree_filesystem_def example_open_def example_read_def)
  have e: "text_of example_fs [] = []"
    by (simp add: text_of_def events_of_def render_def)
  from read_failure_is_reported_and_run_continues [OF example_expand c a f] show ?thesis
    by (simp add: e)
qed

text \<open>
  Claim C4. When no path of the two expansions passes the test, nothing is printed
  and the exit status is 0.
\<close>
theorem no_match_prints_nothing:
  assumes "\<forall>pattern\<in>set patterns. expand fsys pattern = Inr (m pattern)"
    and "\<forall>pattern\<in>set patterns. filter accepted (m pattern) = []"
  shows "stdout (main fsys) = [] \<and> exit_code (fst (main fsys)) = 0"
proof -
  have "filter accepted (concat (map m ps)) = []"
    if "\<forall>pattern\<in>set ps. filter accepted (m pattern) = []" for ps
    using that by (induction ps) simp_all
  from this [OF assms(2)] have "events_of fsys (concat (map m patterns)) = []"
    by (simp only: events_of_eq list.map concat.simps)
  then have "stdout (main fsys) = []"
    by (simp add: stdout_def main_events [OF assms(1)] render_def)
  moreover have "exit_code (fst (main fsys)) = 0"
    by (simp only: main_exit glob_failure_none [OF assms(1)] exit_code.simps)
  ultimately show ?thesis by (rule conjI)
qed

theorem no_match_witness:
  "stdout (main (tree_filesystem (Dir []) (\<lambda>f. None) (\<lambda>f. Inr []))) = [] \<and>
   exit_code (fst (main (tree_filesystem (Dir []) (\<lambda>f. None) (\<lambda>f. Inr [])))) = 0"
proof -
  have "list_all (\<lambda>pattern. filter accepted (py_glob (Dir []) pattern) = []) patterns"
    by code_simp
  then have n: "\<forall>pattern\<in>set patterns. filter accepted (py_glob (Dir []) pattern) = []"
    by (simp add: list_all_iff)
  from no_match_prints_nothing [OF empty_expand n] show ?thesis .
qed

text \<open>
  Claim C5. Everything the run prints for the matches of the first pattern precedes
  everything it prints for the matches of the second; the whole trace is, pattern by
  pattern in the declared order and match by match in the order of the expansion, the
  events of each accepted match.
\<close>
theorem patterns_in_declared_order:
  assumes "\<forall>pattern\<in>set patterns. expand fsys pattern = Inr (m pattern)"
  shows "stdout (main fsys) = text_of fsys (m (patterns ! 0)) @ text_of fsys (m (patterns ! 1)) \<and>
         trace (snd (main fsys)) =
           concat (map (\<lambda>pattern. concat (map (file_events fsys) (filter accepted (m pattern))))
                    patterns)"
proof -
  have t: "trace (snd (main fsys)) =
      concat (map (\<lambda>pattern. events_of fsys (m pattern)) patterns)"
    by (rule main_trace [OF assms])
  have "concat (map g patterns) = g (patterns ! 0) @ g (patterns ! 1)"
    for g :: "string \<Rightarrow> event list"
    by (simp add: patterns_def)
  with t have "trace (snd (main fsys)) =
      events_of fsys (m (patterns ! 0)) @ events_of fsys (m (patterns ! 1))"
    by (simp only:)
  then have "stdout (main fsys) =
      text_of fsys (m (patterns ! 0)) @ text_of fsys (m (patterns ! 1))"
    by (simp add: stdout_def text_of_def printed_append render_append)
  moreover from t have "trace (snd (main fsys)) =
           concat (map (\<lambda>pattern. concat (map (file_events fsys) (filter accepted (m pattern))))
                    patterns)"
    by (simp only: events_of_eq)
  ultimately show ?thesis by (rule conjI)
qed

theorem declared_order_witness:
  "stdout (main example_fs) =
     text_of example_fs [''src/app/l/account/orders/i/page.tsx''] @
     text_of example_fs
       [''src/app/l/account/orders/i/page.tsx'',
        ''src/app/en/account/orders/42/page.tsx'',
        ''src/app/[locale]/account/orders/[id]/page.tsx'']"
proof -
  have "py_glob example_tree (patterns ! 0) = [''src/app/l/account/orders/i/page.tsx'']"
    by (simp add: patterns_def example_glob_0)
  moreover have "py_glob example_tree (patterns ! 1) =
     [''src/app/l/account/orders/i/page.tsx'',
      ''src/app/en/account/orders/42/page.tsx'',
      ''src/app/[locale]/account/orders/[id]/page.tsx'']"
    by (simp add: patterns_def example_glob_1)
  ultimately show ?thesis
    using patterns_in_declared_order [OF example_expand] by simp
qed

text \<open>
  Claim C6. A run leaves the filesystem as it found it, and a second run on the
  filesystem the first one leaves prints the same text.
\<close>
theorem run_leaves_filesystem_and_repeats:
  "disk (snd (main fsys)) = fsys \<and>
   stdout (main (disk (snd (main fsys)))) = stdout (main fsys)"
proof -
  have "disk (snd (main fsys)) = fsys"
    by (simp add: main_def for_patterns_disk)
  then show ?thesis by simp
qed

theorem run_repeats_witness:
  "disk (snd (main example_fs)) = example_fs \<and>
   stdout (main (disk (snd (main example_fs)))) = stdout (main example_fs)"
  by (rule run_leaves_filesystem_and_repeats)












section \<open>What the two patterns match\<close>

subsection \<open>One step of the expansion\<close>

lemma iglob_step:
  assumes "posix_split pathname = (dirname, basename)"
    and "has_magic pathname" and "dirname \<noteq> []" and "dirname \<noteq> pathname"
  shows "iglob t pathname dironly =
    concat (map (\<lambda>d. map (posix_join d)
                   ((if has_magic basename then glob1 else glob0) t d basename dironly))
             (if has_magic dirname then iglob t dirname True else [dirname]))"
  by (subst iglob.simps) (simp add: assms Let_def)

lemma iglob_mem:
  assumes "posix_split pathname = (dirname, basename)"
    and "has_magic pathname" and "dirname \<noteq> []" and "dirname \<noteq> pathname"
  shows "f \<in> set (iglob t pathname dironly) \<longleftrightarrow>
    (\<exists>d\<in>set (if has_magic dirname then iglob t dirname True else [dirname]).
     \<exists>n\<in>set ((if has_magic basename then glob1 else glob0) t d basename dironly).
       f = posix_join d n)"
  unfolding iglob_step [OF assms] by auto

lemma suffix_posix_join: "suffix b (posix_join a b)"
  by (simp add: posix_join_def suffix_def)

lemma prefix_posix_join: "\<not> prefix ''/'' b \<Longrightarrow> prefix a (posix_join a b)"
  by (simp add: posix_join_def)

lemma glob0_name: "n \<in> set (glob0 t d basename dironly) \<Longrightarrow> n = basename"
  by (simp add: glob0_def split: if_splits)

lemma glob1_listed: "n \<in> set (glob1 t d pat dironly) \<Longrightarrow> n \<in> set (listdir t d dironly)"
  by (auto simp: glob1_def fnmatch_filter_def Let_def split: if_splits)

lemma wf_child: "wf_node (Dir entries) \<Longrightarrow> (c, n) \<in> set entries \<Longrightarrow> valid_name c \<and> wf_node n"
  by (fastforce simp: list_all_iff)

lemma walk_wf: "wf_node t \<Longrightarrow> walk t cs = Some n \<Longrightarrow> wf_node n"
proof (induction t cs rule: walk.induct)
  case (1 n')
  then show ?case by simp
next
  case (2 c cs)
  then show ?case by simp
next
  case (3 entries c cs)
  from "3.prems"(2) obtain n' where m: "map_of entries c = Some n'" and w: "walk n' cs = Some n"
    by (auto split: option.splits)
  from m have "(c, n') \<in> set entries" by (rule map_of_SomeD)
  with "3.prems"(1) have "wf_node n'" by (blast dest: wf_child)
  with "3.IH" m w show ?case by blast
qed

lemma listdir_valid:
  assumes "wf_node t" and "n \<in> set (listdir t d dironly)"
  shows "valid_name n"
proof (cases "if d = [] then Some t else lookup t d")
  case None
  with assms(2) show ?thesis by (simp add: listdir_def)
next
  case (Some dir)
  with assms(1) have w: "wf_node dir"
    by (auto simp: lookup_def split: if_splits dest: walk_wf)
  show ?thesis
  proof (cases dir)
    case File
    with Some assms(2) show ?thesis by (simp add: listdir_def)
  next
    case (Dir entries)
    with Some assms(2) obtain m where "(n, m) \<in> set entries"
      by (auto simp: listdir_def)
    with w Dir show ?thesis by (blast dest: wf_child)
  qed
qed

lemma valid_name_no_slash: "valid_name n \<Longrightarrow> \<not> prefix ''/'' n"
  by (auto simp: valid_name_def prefix_def list_ex_iff)

lemma split_p1_6:
  "posix_split ''src/app/[locale]/account/orders/[id]/page.tsx'' =
     (''src/app/[locale]/account/orders/[id]'', ''page.tsx'')"
  by code_simp

lemma split_p1_5:
  "posix_split ''src/app/[locale]/account/orders/[id]'' =
     (''src/app/[locale]/account/orders'', ''[id]'')"
  by code_simp

lemma split_p1_4:
  "posix_split ''src/app/[locale]/account/orders'' = (''src/app/[locale]/account'', ''orders'')"
  by code_simp

lemma split_p1_3:
  "posix_split ''src/app/[locale]/account'' = (''src/app/[locale]'', ''account'')"
  by code_simp

lemma split_p1_2: "posix_split ''src/app/[locale]'' = (''src/app'', ''[locale]'')"
  by code_simp

lemma split_p2_6:
  "posix_split ''src/app/*/account/orders/*/page.tsx'' =
     (''src/app/*/account/orders/*'', ''page.tsx'')"
  by code_simp

lemma split_p2_5:
  "posix_split ''src/app/*/account/orders/*'' = (''src/app/*/account/orders'', ''*'')"
  by code_simp

lemma split_p2_4:
  "posix_split ''src/app/*/account/orders'' = (''src/app/*/account'', ''orders'')"
  by code_simp

lemma split_p2_3: "posix_split ''src/app/*/account'' = (''src/app/*'', ''account'')"
  by code_simp

lemma split_p2_2: "posix_split ''src/app/*'' = (''src/app'', ''*'')"
  by code_simp

lemma p1_6:
  "f \<in> set (iglob t ''src/app/[locale]/account/orders/[id]/page.tsx'' dironly) \<longleftrightarrow>
   (\<exists>d\<in>set (iglob t ''src/app/[locale]/account/orders/[id]'' True).
    \<exists>n\<in>set (glob0 t d ''page.tsx'' dironly). f = posix_join d n)"
  by (subst iglob_mem [OF split_p1_6]) (simp_all add: has_magic_def)

lemma p1_5:
  "f \<in> set (iglob t ''src/app/[locale]/account/orders/[id]'' dironly) \<longleftrightarrow>
   (\<exists>d\<in>set (iglob t ''src/app/[locale]/account/orders'' True).
    \<exists>n\<in>set (glob1 t d ''[id]'' dironly). f = posix_join d n)"
  by (subst iglob_mem [OF split_p1_5]) (simp_all add: has_magic_def)

lemma p1_4:
  "f \<in> set (iglob t ''src/app/[locale]/account/orders'' dironly) \<longleftrightarrow>
   (\<exists>d\<in>set (iglob t ''src/app/[locale]/account'' True).
    \<exists>n\<in>set (glob0 t d ''orders'' dironly). f = posix_join d n)"
  by (subst iglob_mem [OF split_p1_4]) (simp_all add: has_magic_def)

lemma p1_3:
  "f \<in> set (iglob t ''src/app/[locale]/account'' dironly) \<longleftrightarrow>
   (\<exists>d\<in>set (iglob t ''src/app/[locale]'' True).
    \<exists>n\<in>set (glob0 t d ''account'' dironly). f = posix_join d n)"
  by (subst iglob_mem [OF split_p1_3]) (simp_all add: has_magic_def)

lemma p1_2:
  "f \<in> set (iglob t ''src/app/[locale]'' dironly) \<longleftrightarrow>
   (\<exists>n\<in>set (glob1 t ''src/app'' ''[locale]'' dironly). f = posix_join ''src/app'' n)"
  by (subst iglob_mem [OF split_p1_2]) (simp_all add: has_magic_def)

lemma p2_6:
  "f \<in> set (iglob t ''src/app/*/account/orders/*/page.tsx'' dironly) \<longleftrightarrow>
   (\<exists>d\<in>set (iglob t ''src/app/*/account/orders/*'' True).
    \<exists>n\<in>set (glob0 t d ''page.tsx'' dironly). f = posix_join d n)"
  by (subst iglob_mem [OF split_p2_6]) (simp_all add: has_magic_def)

lemma p2_5:
  "f \<in> set (iglob t ''src/app/*/account/orders/*'' dironly) \<longleftrightarrow>
   (\<exists>d\<in>set (iglob t ''src/app/*/account/orders'' True).
    \<exists>n\<in>set (glob1 t d ''*'' dironly). f = posix_join d n)"
  by (subst iglob_mem [OF split_p2_5]) (simp_all add: has_magic_def)

lemma p2_4:
  "f \<in> set (iglob t ''src/app/*/account/orders'' dironly) \<longleftrightarrow>
   (\<exists>d\<in>set (iglob t ''src/app/*/account'' True).
    \<exists>n\<in>set (glob0 t d ''orders'' dironly). f = posix_join d n)"
  by (subst iglob_mem [OF split_p2_4]) (simp_all add: has_magic_def)

lemma p2_3:
  "f \<in> set (iglob t ''src/app/*/account'' dironly) \<longleftrightarrow>
   (\<exists>d\<in>set (iglob t ''src/app/*'' True).
    \<exists>n\<in>set (glob0 t d ''account'' dironly). f = posix_join d n)"
  by (subst iglob_mem [OF split_p2_3]) (simp_all add: has_magic_def)

lemma p2_2:
  "f \<in> set (iglob t ''src/app/*'' dironly) \<longleftrightarrow>
   (\<exists>n\<in>set (glob1 t ''src/app'' ''*'' dironly). f = posix_join ''src/app'' n)"
  by (subst iglob_mem [OF split_p2_2]) (simp_all add: has_magic_def)

subsection \<open>The test of line 13 on the matches\<close>

lemma accepted_join:
  assumes "suffix ''orders'' d" and "\<not> prefix ''/'' n"
  shows "accepted (posix_join (posix_join d n) ''page.tsx'')"
proof -
  have "prefix d (posix_join d n)"
    using assms(2) by (rule prefix_posix_join)
  moreover have "prefix (posix_join d n) (posix_join (posix_join d n) ''page.tsx'')"
    by (rule prefix_posix_join) simp
  ultimately have "prefix d (posix_join (posix_join d n) ''page.tsx'')"
    by (rule prefix_order.trans)
  with assms(1) have o: "sublist ''orders'' (posix_join (posix_join d n) ''page.tsx'')"
    unfolding sublist_def suffix_def prefix_def by (metis append.assoc)
  have "suffix ''.tsx'' ''page.tsx''"
    by (simp add: suffix_def)
  then have "suffix ''.tsx'' (posix_join (posix_join d n) ''page.tsx'')"
    using suffix_posix_join by (rule suffix_order.trans)
  with o show ?thesis by (simp add: accepted_def)
qed

lemma glob1_no_slash:
  "wf_node t \<Longrightarrow> n \<in> set (glob1 t d pat dironly) \<Longrightarrow> \<not> prefix ''/'' n"
  by (blast dest: glob1_listed listdir_valid valid_name_no_slash)

lemma p1_accepted:
  assumes "wf_node t"
    and "f \<in> set (py_glob t ''src/app/[locale]/account/orders/[id]/page.tsx'')"
  shows "accepted f"
proof -
  from assms(2) obtain d5 where d5: "d5 \<in> set (iglob t ''src/app/[locale]/account/orders/[id]'' True)"
    and f: "f = posix_join d5 ''page.tsx''"
    unfolding py_glob_def p1_6 by (blast dest: glob0_name)
  from d5 obtain d4 n5 where d4: "d4 \<in> set (iglob t ''src/app/[locale]/account/orders'' True)"
    and n5: "n5 \<in> set (glob1 t d4 ''[id]'' True)" and d5': "d5 = posix_join d4 n5"
    unfolding p1_5 by blast
  from d4 obtain d3 where "d4 = posix_join d3 ''orders''"
    unfolding p1_4 by (blast dest: glob0_name)
  then have "suffix ''orders'' d4"
    by (simp add: suffix_posix_join)
  moreover from assms(1) n5 have "\<not> prefix ''/'' n5"
    by (rule glob1_no_slash)
  ultimately show ?thesis
    unfolding f d5' by (rule accepted_join)
qed

lemma p2_accepted:
  assumes "wf_node t"
    and "f \<in> set (py_glob t ''src/app/*/account/orders/*/page.tsx'')"
  shows "accepted f"
proof -
  from assms(2) obtain d5 where d5: "d5 \<in> set (iglob t ''src/app/*/account/orders/*'' True)"
    and f: "f = posix_join d5 ''page.tsx''"
    unfolding py_glob_def p2_6 by (blast dest: glob0_name)
  from d5 obtain d4 n5 where d4: "d4 \<in> set (iglob t ''src/app/*/account/orders'' True)"
    and n5: "n5 \<in> set (glob1 t d4 ''*'' True)" and d5': "d5 = posix_join d4 n5"
    unfolding p2_5 by blast
  from d4 obtain d3 where "d4 = posix_join d3 ''orders''"
    unfolding p2_4 by (blast dest: glob0_name)
  then have "suffix ''orders'' d4"
    by (simp add: suffix_posix_join)
  moreover from assms(1) n5 have "\<not> prefix ''/'' n5"
    by (rule glob1_no_slash)
  ultimately show ?thesis
    unfolding f d5' by (rule accepted_join)
qed

lemma filter_all: "\<forall>x\<in>set xs. P x \<Longrightarrow> filter P xs = xs"
  by (induction xs) simp_all

text \<open>
  Claim C9. On a directory tree with well-formed names, every path either pattern
  expands to contains \<^verbatim>\<open>orders\<close> and ends in \<^verbatim>\<open>.tsx\<close>: the test of line 13 removes
  nothing from an expansion, and the run announces every match.
\<close>

theorem acceptance_test_is_vacuous:
  assumes "wf_node t"
  shows "(\<forall>pattern\<in>set patterns. \<forall>f\<in>set (py_glob t pattern). accepted f) \<and>
         (\<forall>pattern\<in>set patterns. filter accepted (py_glob t pattern) = py_glob t pattern) \<and>
         found_paths (printed (trace (snd (main (tree_filesystem t op rd))))) =
           concat (map (py_glob t) patterns)"
proof -
  have a: "\<forall>pattern\<in>set patterns. \<forall>f\<in>set (py_glob t pattern). accepted f"
    using p1_accepted [OF assms] p2_accepted [OF assms] by (simp add: patterns_def)
  then have b: "\<forall>pattern\<in>set patterns. filter accepted (py_glob t pattern) = py_glob t pattern"
    by (simp add: filter_all)
  have "\<forall>pattern\<in>set patterns.
      expand (tree_filesystem t op rd) pattern = Inr (py_glob t pattern)"
    by (simp add: tree_filesystem_def)
  then have "trace (snd (main (tree_filesystem t op rd))) =
      concat (map (\<lambda>pattern. events_of (tree_filesystem t op rd) (py_glob t pattern)) patterns)"
    by (rule main_trace)
  then have "found_paths (printed (trace (snd (main (tree_filesystem t op rd))))) =
      concat (map (\<lambda>pattern. filter accepted (py_glob t pattern)) patterns)"
    by (simp add: printed_concat found_paths_concat comp_def found_events_of)
  also have "\<dots> = concat (map (py_glob t) patterns)"
    using b by (simp cong: map_cong)
  finally show ?thesis using a b by blast
qed

theorem acceptance_witness:
  "wf_node example_tree \<and>
   filter accepted (py_glob example_tree (patterns ! 1)) =
     [''src/app/l/account/orders/i/page.tsx'',
      ''src/app/en/account/orders/42/page.tsx'',
      ''src/app/[locale]/account/orders/[id]/page.tsx''] \<and>
   found_paths (printed (trace (snd (main example_fs)))) =
     [''src/app/l/account/orders/i/page.tsx'',
      ''src/app/l/account/orders/i/page.tsx'',
      ''src/app/en/account/orders/42/page.tsx'',
      ''src/app/[locale]/account/orders/[id]/page.tsx'']"
proof -
  have w: "wf_node example_tree"
    by code_simp
  note v = acceptance_test_is_vacuous [OF w, of example_open example_read]
  have "patterns ! 1 \<in> set patterns"
    by (simp add: patterns_def)
  with v have "filter accepted (py_glob example_tree (patterns ! 1)) =
      py_glob example_tree (patterns ! 1)"
    by blast
  then have f: "filter accepted (py_glob example_tree (patterns ! 1)) =
     [''src/app/l/account/orders/i/page.tsx'',
      ''src/app/en/account/orders/42/page.tsx'',
      ''src/app/[locale]/account/orders/[id]/page.tsx'']"
    by (simp add: patterns_def example_glob_1)
  from v have "found_paths (printed (trace (snd (main example_fs)))) =
      concat (map (py_glob example_tree) patterns)"
    by (simp add: example_fs_def)
  with w f show ?thesis
    by (simp add: example_candidates)
qed

subsection \<open>The brackets of the first pattern\<close>

lemma translate_locale: "translate ''[locale]'' = [CharSet False ''locale'' []]"
  by code_simp

lemma translate_id: "translate ''[id]'' = [CharSet False ''id'' []]"
  by code_simp

lemma translate_star: "translate ''*'' = [Star]"
  by code_simp

lemma matches_char_set: "matches [CharSet False ss []] n \<longleftrightarrow> (\<exists>x\<in>set ss. n = [x])"
  by (cases n) auto

lemma matches_star: "matches [Star] n"
  by (induction n) simp_all

lemma glob1_locale:
  "n \<in> set (glob1 t d ''[locale]'' dironly) \<Longrightarrow> \<exists>x\<in>set ''locale''. n = [x]"
  unfolding glob1_def fnmatch_filter_def translate_locale
  by (simp add: matches_char_set Let_def del: matches.simps)

lemma glob1_id:
  "n \<in> set (glob1 t d ''[id]'' dironly) \<Longrightarrow> \<exists>y\<in>set ''id''. n = [y]"
  unfolding glob1_def fnmatch_filter_def translate_id
  by (simp add: matches_char_set Let_def del: matches.simps)

lemma glob1_star:
  "n \<in> set (glob1 t d ''*'' dironly) \<longleftrightarrow> n \<in> set (listdir t d dironly) \<and> \<not> ishidden n"
  unfolding glob1_def fnmatch_filter_def translate_star
  by (simp add: matches_star Let_def del: matches.simps)

lemma posix_join_plain:
  "a \<noteq> [] \<Longrightarrow> last a \<noteq> CHR ''/'' \<Longrightarrow> b \<noteq> [] \<Longrightarrow> hd b \<noteq> CHR ''/'' \<Longrightarrow>
   posix_join a b = a @ ''/'' @ b"
  by (cases b; cases a rule: rev_cases) (simp_all add: posix_join_def)

lemma p1_form:
  assumes "f \<in> set (py_glob t ''src/app/[locale]/account/orders/[id]/page.tsx'')"
  shows "\<exists>x\<in>set ''locale''. \<exists>y\<in>set ''id''.
           f = ''src/app/'' @ [x] @ ''/account/orders/'' @ [y] @ ''/page.tsx''"
proof -
  from assms obtain d5 where d5: "d5 \<in> set (iglob t ''src/app/[locale]/account/orders/[id]'' True)"
    and f: "f = posix_join d5 ''page.tsx''"
    unfolding py_glob_def p1_6 by (blast dest: glob0_name)
  from d5 obtain d4 n5 where d4: "d4 \<in> set (iglob t ''src/app/[locale]/account/orders'' True)"
    and n5: "n5 \<in> set (glob1 t d4 ''[id]'' True)" and d5': "d5 = posix_join d4 n5"
    unfolding p1_5 by blast
  from d4 obtain d3 where d3: "d3 \<in> set (iglob t ''src/app/[locale]/account'' True)"
    and d4': "d4 = posix_join d3 ''orders''"
    unfolding p1_4 by (blast dest: glob0_name)
  from d3 obtain d2 where d2: "d2 \<in> set (iglob t ''src/app/[locale]'' True)"
    and d3': "d3 = posix_join d2 ''account''"
    unfolding p1_3 by (blast dest: glob0_name)
  from d2 obtain n2 where n2: "n2 \<in> set (glob1 t ''src/app'' ''[locale]'' True)"
    and d2': "d2 = posix_join ''src/app'' n2"
    unfolding p1_2 by blast
  from n2 obtain x where x: "x \<in> set ''locale''" and n2': "n2 = [x]"
    by (blast dest: glob1_locale)
  from n5 obtain y where y: "y \<in> set ''id''" and n5': "n5 = [y]"
    by (blast dest: glob1_id)
  from x have xs: "x \<noteq> CHR ''/''" by auto
  from y have ys: "y \<noteq> CHR ''/''" by auto
  have e2: "d2 = ''src/app/'' @ [x]"
    unfolding d2' n2' using xs by (subst posix_join_plain) simp_all
  have e3: "d3 = ''src/app/'' @ [x] @ ''/account''"
    unfolding d3' e2 using xs by (subst posix_join_plain) simp_all
  have e4: "d4 = ''src/app/'' @ [x] @ ''/account/orders''"
    unfolding d4' e3 by (subst posix_join_plain) simp_all
  have e5: "d5 = ''src/app/'' @ [x] @ ''/account/orders/'' @ [y]"
    unfolding d5' e4 n5' using ys by (subst posix_join_plain) simp_all
  have "f = ''src/app/'' @ [x] @ ''/account/orders/'' @ [y] @ ''/page.tsx''"
    unfolding f e5 using ys by (subst posix_join_plain) simp_all
  with x y show ?thesis by blast
qed

lemma walk_append:
  "walk t (cs @ ds) = (case walk t cs of None \<Rightarrow> None | Some n \<Rightarrow> walk n ds)"
  by (induction t cs rule: walk.induct) (auto split: option.splits list.splits node.splits)

lemma walk_child:
  assumes "walk m (c # c' # cs) = Some n"
  shows "\<exists>entries k. m = Dir entries \<and> (c, k) \<in> set entries \<and> is_dir k \<and>
           walk k (c' # cs) = Some n"
proof (cases m)
  case File
  with assms show ?thesis by simp
next
  case (Dir entries)
  with assms obtain k where k: "map_of entries c = Some k" and w: "walk k (c' # cs) = Some n"
    by (auto split: option.splits)
  from w have "is_dir k" by (cases k) simp_all
  with Dir k w show ?thesis by (blast dest: map_of_SomeD)
qed

lemma listdir_child:
  assumes "lookup t d = Some m" and "d \<noteq> []" and "walk m (c # c' # cs) = Some n"
  shows "c \<in> set (listdir t d True)"
proof -
  from assms(3) obtain entries k where "m = Dir entries" "(c, k) \<in> set entries" "is_dir k"
    by (blast dest: walk_child)
  with assms(1,2) show ?thesis
    by (force simp: listdir_def)
qed

lemma walk_prefix:
  "walk t (cs @ ds) = Some n \<Longrightarrow> \<exists>m. walk t cs = Some m \<and> walk m ds = Some n"
  by (simp add: walk_append split: option.splits)

lemma join_step:
  "d \<in> D \<Longrightarrow> n \<in> N d \<Longrightarrow> posix_join d n = f \<Longrightarrow>
   \<exists>d\<in>D. \<exists>n\<in>N d. f = posix_join d n"
  by blast

lemma join_first: "n \<in> N \<Longrightarrow> posix_join a n = f \<Longrightarrow> \<exists>n\<in>N. f = posix_join a n"
  by blast

lemma literal_matched_by_star:
  assumes "lexists t ''src/app/[locale]/account/orders/[id]/page.tsx''"
  shows "''src/app/[locale]/account/orders/[id]/page.tsx'' \<in>
           set (py_glob t ''src/app/*/account/orders/*/page.tsx'')"
proof -
  have "split_sep ''src/app/[locale]/account/orders/[id]/page.tsx'' =
      [''src'', ''app'', ''[locale]'', ''account'', ''orders'', ''[id]'', ''page.tsx'']"
    by code_simp
  with assms obtain n where
    w: "walk t [''src'', ''app'', ''[locale]'', ''account'', ''orders'', ''[id]'', ''page.tsx'']
          = Some n"
    by (auto simp: lexists_def lookup_def)
  have s2: "split_sep ''src/app'' = [''src'', ''app'']"
    by code_simp
  have s3: "split_sep ''src/app/[locale]/account'' = [''src'', ''app'', ''[locale]'', ''account'']"
    by code_simp
  have s4: "split_sep ''src/app/[locale]/account/orders'' =
      [''src'', ''app'', ''[locale]'', ''account'', ''orders'']"
    by code_simp
  from walk_prefix [of t "[''src'', ''app'']"
      "[''[locale]'', ''account'', ''orders'', ''[id]'', ''page.tsx'']" n] w
  obtain m2 where m2: "lookup t ''src/app'' = Some m2"
    and w2: "walk m2 [''[locale]'', ''account'', ''orders'', ''[id]'', ''page.tsx''] = Some n"
    by (auto simp: lookup_def s2)
  from walk_prefix [of t "[''src'', ''app'', ''[locale]'', ''account'']"
      "[''orders'', ''[id]'', ''page.tsx'']" n] w
  have l3: "lexists t ''src/app/[locale]/account''"
    by (auto simp: lexists_def lookup_def s3)
  from walk_prefix [of t "[''src'', ''app'', ''[locale]'', ''account'', ''orders'']"
      "[''[id]'', ''page.tsx'']" n] w
  obtain m4 where m4: "lookup t ''src/app/[locale]/account/orders'' = Some m4"
    and w4: "walk m4 [''[id]'', ''page.tsx''] = Some n"
    by (auto simp: lookup_def s4)
  from m4 have l4: "lexists t ''src/app/[locale]/account/orders''"
    by (simp add: lexists_def)
  have j2: "posix_join ''src/app'' ''[locale]'' = ''src/app/[locale]''"
    by code_simp
  have j3: "posix_join ''src/app/[locale]'' ''account'' = ''src/app/[locale]/account''"
    by code_simp
  have j4: "posix_join ''src/app/[locale]/account'' ''orders'' = ''src/app/[locale]/account/orders''"
    by code_simp
  have j5: "posix_join ''src/app/[locale]/account/orders'' ''[id]'' =
      ''src/app/[locale]/account/orders/[id]''"
    by code_simp
  have j6: "posix_join ''src/app/[locale]/account/orders/[id]'' ''page.tsx'' =
      ''src/app/[locale]/account/orders/[id]/page.tsx''"
    by code_simp
  have "''[locale]'' \<in> set (listdir t ''src/app'' True)"
    using m2 _ w2 by (rule listdir_child) simp
  then have "''[locale]'' \<in> set (glob1 t ''src/app'' ''*'' True)"
    by (simp add: glob1_star)
  then have d2: "''src/app/[locale]'' \<in> set (iglob t ''src/app/*'' True)"
    unfolding p2_2 using j2 by (rule join_first)
  have "''account'' \<in> set (glob0 t ''src/app/[locale]'' ''account'' True)"
    using l3 by (simp add: glob0_def glob_join_def j3)
  with d2 have d3: "''src/app/[locale]/account'' \<in> set (iglob t ''src/app/*/account'' True)"
    unfolding p2_3 using j3 by (rule join_step)
  have "''orders'' \<in> set (glob0 t ''src/app/[locale]/account'' ''orders'' True)"
    using l4 by (simp add: glob0_def glob_join_def j4)
  with d3 have d4: "''src/app/[locale]/account/orders'' \<in>
      set (iglob t ''src/app/*/account/orders'' True)"
    unfolding p2_4 using j4 by (rule join_step)
  have "''[id]'' \<in> set (listdir t ''src/app/[locale]/account/orders'' True)"
    using m4 _ w4 by (rule listdir_child) simp
  then have "''[id]'' \<in> set (glob1 t ''src/app/[locale]/account/orders'' ''*'' True)"
    by (simp add: glob1_star)
  with d4 have d5: "''src/app/[locale]/account/orders/[id]'' \<in>
      set (iglob t ''src/app/*/account/orders/*'' True)"
    unfolding p2_5 using j5 by (rule join_step)
  have "''page.tsx'' \<in> set (glob0 t ''src/app/[locale]/account/orders/[id]'' ''page.tsx'' False)"
    using assms by (simp add: glob0_def glob_join_def j6)
  with d5 show ?thesis
    unfolding py_glob_def p2_6 using j6 by (rule join_step)
qed

text \<open>
  Claim C10. In the first pattern \<^verbatim>\<open>[locale]\<close> and \<^verbatim>\<open>[id]\<close> are character classes:
  every path it expands to has a single character of \<^verbatim>\<open>locale\<close> and a single
  character of \<^verbatim>\<open>id\<close> in their places. An existing page under directories literally
  named \<^verbatim>\<open>[locale]\<close> and \<^verbatim>\<open>[id]\<close> is matched by the second pattern and never by
  the first.
\<close>

theorem brackets_are_character_classes:
  "(\<forall>f\<in>set (py_glob t (patterns ! 0)).
      \<exists>x\<in>set ''locale''. \<exists>y\<in>set ''id''.
        f = ''src/app/'' @ [x] @ ''/account/orders/'' @ [y] @ ''/page.tsx'') \<and>
   (lexists t ''src/app/[locale]/account/orders/[id]/page.tsx'' \<longrightarrow>
      ''src/app/[locale]/account/orders/[id]/page.tsx'' \<in> set (py_glob t (patterns ! 1)) \<and>
      ''src/app/[locale]/account/orders/[id]/page.tsx'' \<notin> set (py_glob t (patterns ! 0)))"
proof -
  have p0: "patterns ! 0 = ''src/app/[locale]/account/orders/[id]/page.tsx''"
    by (simp add: patterns_def)
  have p1: "patterns ! 1 = ''src/app/*/account/orders/*/page.tsx''"
    by (simp add: patterns_def)
  have a: "\<forall>f\<in>set (py_glob t (patterns ! 0)).
      \<exists>x\<in>set ''locale''. \<exists>y\<in>set ''id''.
        f = ''src/app/'' @ [x] @ ''/account/orders/'' @ [y] @ ''/page.tsx''"
    unfolding p0 by (blast dest: p1_form)
  have "''src/app/[locale]/account/orders/[id]/page.tsx'' \<notin> set (py_glob t (patterns ! 0))"
  proof
    assume "''src/app/[locale]/account/orders/[id]/page.tsx'' \<in> set (py_glob t (patterns ! 0))"
    with a obtain x y where "x \<in> set ''locale''"
      and "''src/app/[locale]/account/orders/[id]/page.tsx'' =
        ''src/app/'' @ [x] @ ''/account/orders/'' @ [y] @ ''/page.tsx''"
      by blast
    then show False by simp
  qed
  with a show ?thesis
    unfolding p1 by (blast intro: literal_matched_by_star)
qed

theorem character_class_witness:
  "lexists example_tree ''src/app/[locale]/account/orders/[id]/page.tsx'' \<and>
   ''src/app/[locale]/account/orders/[id]/page.tsx'' \<in>
     set (py_glob example_tree (patterns ! 1)) \<and>
   ''src/app/[locale]/account/orders/[id]/page.tsx'' \<notin>
     set (py_glob example_tree (patterns ! 0)) \<and>
   py_glob example_tree (patterns ! 0) = [''src/app/'' @ ''l'' @ ''/account/orders/'' @ ''i'' @ ''/page.tsx'']"
proof -
  have l: "lexists example_tree ''src/app/[locale]/account/orders/[id]/page.tsx''"
    by code_simp
  have g: "py_glob example_tree (patterns ! 0) =
      [''src/app/'' @ ''l'' @ ''/account/orders/'' @ ''i'' @ ''/page.tsx'']"
    by (simp add: patterns_def example_glob_0)
  from brackets_are_character_classes [of example_tree] l g show ?thesis
    by blast
qed

end
